theory Spec2Isabelle
  imports Main
begin

section \<open>Python strings\<close>

text \<open>
  The script \<^verbatim>\<open>scripts/convert_csv.py\<close> works on Python \<^verbatim>\<open>str\<close> values and on
  \<^verbatim>\<open>None\<close>. A \<^verbatim>\<open>str\<close> is modelled as a \<^typ>\<open>string\<close> whose characters are the code
  points below 256; a value that may be \<^verbatim>\<open>None\<close> is a \<^typ>\<open>string option\<close>.
  The library methods the script calls (\<^verbatim>\<open>str.lower\<close>, \<^verbatim>\<open>str.strip\<close>, \<^verbatim>\<open>str.split\<close>,
  \<^verbatim>\<open>str.join\<close>, \<^verbatim>\<open>dict.get\<close>, \<^verbatim>\<open>re.sub\<close> with a character class, \<^verbatim>\<open>str\<close> of an integer)
  are written out on that range.
\<close>

text \<open>\<^verbatim>\<open>str.isspace\<close> on one character: TAB..CR, FS..US, space, NEL and NBSP.\<close>

definition is_space :: "char \<Rightarrow> bool" where
  "is_space c = (let n = (of_char c :: nat) in
     (9 \<le> n \<and> n \<le> 13) \<or> (28 \<le> n \<and> n \<le> 32) \<or> n = 133 \<or> n = 160)"

text \<open>The characters that \<^verbatim>\<open>str.lower\<close> changes: A..Z and the accented capitals
  of the upper half (all of 192..222 but the multiplication sign 215).\<close>

definition is_upper :: "char \<Rightarrow> bool" where
  "is_upper c = (let n = (of_char c :: nat) in
     (65 \<le> n \<and> n \<le> 90) \<or> (192 \<le> n \<and> n \<le> 222 \<and> n \<noteq> 215))"

definition lower_char :: "char \<Rightarrow> char" where
  "lower_char c = (if is_upper c then char_of ((of_char c :: nat) + 32) else c)"

definition py_lower :: "string \<Rightarrow> string" where
  "py_lower s = map lower_char s"

text \<open>\<^verbatim>\<open>s.strip()\<close>: leading and trailing whitespace removed.\<close>

definition py_strip :: "string \<Rightarrow> string" where
  "py_strip s = rev (dropWhile is_space (rev (dropWhile is_space s)))"

text \<open>\<^verbatim>\<open>s.split()\<close>: the maximal runs of non-whitespace characters, in order.\<close>

function py_split :: "string \<Rightarrow> string list" where
  "py_split s = (case dropWhile is_space s of
       [] \<Rightarrow> []
     | c # cs \<Rightarrow> takeWhile (\<lambda>x. \<not> is_space x) (c # cs)
                # py_split (dropWhile (\<lambda>x. \<not> is_space x) (c # cs)))"
  by pat_completeness auto
termination
proof (relation "measure length")
  show "wf (measure (length :: string \<Rightarrow> nat))" by simp
next
  fix s :: string and c cs
  assume d: "dropWhile is_space s = c # cs"
  have "\<not> is_space c"
    using d hd_dropWhile [of is_space s] by auto
  then have "length (dropWhile (\<lambda>x. \<not> is_space x) (c # cs)) \<le> length cs"
    by (simp add: length_dropWhile_le)
  moreover have "length (c # cs) \<le> length s"
    using d length_dropWhile_le [of is_space s] by simp
  ultimately show "(dropWhile (\<lambda>x. \<not> is_space x) (c # cs), s) \<in> measure length"
    by simp
qed

declare py_split.simps [simp del]

text \<open>\<^verbatim>\<open>' '.join(parts)\<close>.\<close>

fun py_join :: "string list \<Rightarrow> string" where
  "py_join [] = []"
| "py_join [p] = p"
| "py_join (p # q # ps) = p @ '' '' @ py_join (q # ps)"

text \<open>\<^verbatim>\<open>d.get(key, default)\<close> on a dictionary literal, kept as its list of items.\<close>

definition dict_get :: "('k \<times> 'v) list \<Rightarrow> 'k \<Rightarrow> 'v \<Rightarrow> 'v" where
  "dict_get d k dflt = (case map_of d k of None \<Rightarrow> dflt | Some v \<Rightarrow> v)"

text \<open>Truth value of an optional string: \<^verbatim>\<open>None\<close> and \<^verbatim>\<open>''\<close> are false.\<close>

fun truthy :: "string option \<Rightarrow> bool" where
  "truthy None = False"
| "truthy (Some s) = (s \<noteq> [])"

text \<open>\<^verbatim>\<open>str(n)\<close> for an integer: decimal digits, with a minus sign when negative.\<close>

definition digit_char :: "nat \<Rightarrow> char" where
  "digit_char d = char_of (48 + d)"

function str_nat :: "nat \<Rightarrow> string" where
  "str_nat n = (if n < 10 then [digit_char n] else str_nat (n div 10) @ [digit_char (n mod 10)])"
  by pat_completeness auto
termination
  by (relation "measure id") auto

declare str_nat.simps [simp del]

definition str_int :: "int \<Rightarrow> string" where
  "str_int i = (if i < 0 then CHR ''-'' # str_nat (nat (- i)) else str_nat (nat i))"

section \<open>Level, fee and name\<close>

text \<open>\<^verbatim>\<open>LEVEL_FEES\<close>, lines 12-26.\<close>

definition LEVEL_FEES :: "(string \<times> int) list" where
  "LEVEL_FEES =
    [(''RR'', 250), (''R'', 250), (''Pre level 1'', 300),
     (''Level 1'', 350), (''Level 2'', 400), (''Level 3'', 450),
     (''Level 4'', 500), (''Level 5'', 550),
     (''1'', 350), (''2'', 400), (''3'', 450), (''4'', 500), (''5'', 550)]"

text \<open>\<^verbatim>\<open>level_map\<close>, lines 36-50.\<close>

definition level_map :: "(string \<times> string) list" where
  "level_map =
    [(''rr'', ''RR''), (''r'', ''R''), (''pre level 1'', ''Pre level 1''),
     (''level 1'', ''Level 1''), (''level 2'', ''Level 2''), (''level 3'', ''Level 3''),
     (''level 4'', ''Level 4''), (''level 5'', ''Level 5''),
     (''1'', ''Level 1''), (''2'', ''Level 2''), (''3'', ''Level 3''),
     (''4'', ''Level 4''), (''5'', ''Level 5'')]"

text \<open>\<^verbatim>\<open>normalize_level\<close>, lines 28-52. The test of line 30 is made on the string as it
  comes; the string is stripped after it.\<close>

definition normalize_level :: "string option \<Rightarrow> string option" where
  "normalize_level level =
     (case level of
        None \<Rightarrow> None
      | Some l \<Rightarrow>
          if l = [] \<or> py_lower l \<in> set [''inactive'', ''none'', ''''] then None
          else (let l' = py_strip l in Some (dict_get level_map (py_lower l') l')))"

text \<open>\<^verbatim>\<open>get_monthly_fee\<close>, lines 54-58.\<close>

definition get_monthly_fee :: "string option \<Rightarrow> int" where
  "get_monthly_fee level =
     (case level of
        None \<Rightarrow> 0
      | Some l \<Rightarrow> if l = [] then 0 else dict_get LEVEL_FEES l 350)"

text \<open>\<^verbatim>\<open>parse_name\<close>, lines 60-74.\<close>

definition parse_name :: "string option \<Rightarrow> string option \<Rightarrow> string option \<Rightarrow> string \<times> string" where
  "parse_name full_name first_name last_name =
     (if truthy first_name \<and> truthy last_name
      then (py_strip (the first_name), py_strip (the last_name))
      else if truthy full_name then
        (let parts = py_split (py_strip (the full_name)) in
         if length parts \<ge> 2 then (hd parts, py_join (tl parts))
         else if length parts = 1 then (hd parts, hd parts)
         else (''Unknown'', ''Child''))
      else (''Unknown'', ''Child''))"

text \<open>\<^verbatim>\<open>generate_parent_email\<close>, lines 76-81: \<^verbatim>\<open>re.sub(r'[^a-zA-Z]', '', x)\<close> keeps the
  ASCII letters of \<^verbatim>\<open>x\<close>.\<close>

definition is_ascii_letter :: "char \<Rightarrow> bool" where
  "is_ascii_letter c = (let n = (of_char c :: nat) in
     (97 \<le> n \<and> n \<le> 122) \<or> (65 \<le> n \<and> n \<le> 90))"

definition generate_parent_email :: "string \<Rightarrow> string \<Rightarrow> string" where
  "generate_parent_email first_name last_name =
     (let first = filter is_ascii_letter (py_lower first_name);
          last = filter is_ascii_letter (py_lower last_name)
      in first @ ''.'' @ last @ ''@placeholder.com'')"

section \<open>The conversion\<close>

text \<open>
  A row of \<^verbatim>\<open>csv.DictReader\<close> is a dictionary from the column names of the header to
  the fields of the line; the field of a column that a short line does not reach is
  \<^verbatim>\<open>None\<close>. \<^verbatim>\<open>row.get(key, '')\<close> is \<^verbatim>\<open>''\<close> for a column that the header does not have.
\<close>

type_synonym row = "string \<rightharpoonup> string option"

definition row_get :: "row \<Rightarrow> string \<Rightarrow> string option" where
  "row_get r k = (case r k of None \<Rightarrow> Some [] | Some v \<Rightarrow> v)"

text \<open>\<^verbatim>\<open>output_columns\<close>, lines 95-100.\<close>

definition output_columns :: "string list" where
  "output_columns =
    [''firstName'', ''lastName'', ''parentFirstName'', ''parentLastName'',
     ''parentEmail'', ''parentPhone'', ''level'', ''monthlyFee'', ''status'',
     ''dateOfBirth'', ''gender'', ''notes'', ''currentBalance'', ''sagfFee'',
     ''equipmentFee'', ''competitionFee'', ''lastPaymentDate'', ''lastPaymentAmount'']"

text \<open>The status of lines 120-124, from the normalized level.\<close>

definition level_status :: "string option \<Rightarrow> string" where
  "level_status level =
     (if \<not> truthy level \<or> py_lower (the level) \<in> set [''inactive'', ''none'']
      then ''INACTIVE'' else ''ACTIVE'')"

text \<open>The body of the loop, lines 110-156, for one row: \<^const>\<open>None\<close> when the row is
  skipped (line 129), else the dictionary \<^verbatim>\<open>output_row\<close> as its items in the order
  they are written in the source.\<close>

definition output_row :: "row \<Rightarrow> (string \<times> string) list option" where
  "output_row r =
     (let (child_first, child_last) =
            parse_name (row_get r ''Full Name'') (row_get r ''Name'') (row_get r ''Surname'');
          level = normalize_level (row_get r ''Level'');
          status = level_status level
      in if child_first = ''Unknown'' \<or> child_last = [] then None
         else
           (let parent_email = generate_parent_email child_first child_last;
                monthly_fee = (if truthy level then get_monthly_fee level else 0)
            in Some
              [(''firstName'', child_first),
               (''lastName'', child_last),
               (''parentFirstName'', ''Parent''),
               (''parentLastName'', child_last),
               (''parentEmail'', parent_email),
               (''parentPhone'', []),
               (''level'', if truthy level then the level else ''R''),
               (''monthlyFee'', ''R'' @ str_int monthly_fee),
               (''status'', status),
               (''dateOfBirth'', []),
               (''gender'', []),
               (''notes'', ''Imported from CSV - verify parent contact details''),
               (''currentBalance'', ''R0''),
               (''sagfFee'', []),
               (''equipmentFee'', []),
               (''competitionFee'', []),
               (''lastPaymentDate'', []),
               (''lastPaymentAmount'', [])]))"

text \<open>\<^verbatim>\<open>DictWriter.writerow\<close>: the values of the dictionary in the order of the field
  names.\<close>

definition writerow :: "string list \<Rightarrow> (string \<times> string) list \<Rightarrow> string list" where
  "writerow fieldnames d = map (\<lambda>k. dict_get d k []) fieldnames"

text \<open>The state of a run: the lines written to the output file so far (the header is
  the first) and the two counters.\<close>

record conversion =
  written :: "string list list"
  rows_converted :: int
  rows_skipped :: int

text \<open>One pass of the loop of line 109.\<close>

definition convert_step :: "conversion \<Rightarrow> row \<Rightarrow> conversion" where
  "convert_step st r =
     (case output_row r of
        None \<Rightarrow> st\<lparr>rows_skipped := rows_skipped st + 1\<rparr>
      | Some d \<Rightarrow> st\<lparr>written := written st @ [writerow output_columns d],
                     rows_converted := rows_converted st + 1\<rparr>)"

fun convert_rows :: "conversion \<Rightarrow> row list \<Rightarrow> conversion" where
  "convert_rows st [] = st"
| "convert_rows st (r # rs) = convert_rows (convert_step st r) rs"

text \<open>\<^verbatim>\<open>convert_csv\<close>, lines 83-159, on the rows that the reader yields.\<close>

definition convert_csv :: "row list \<Rightarrow> conversion" where
  "convert_csv rows =
     convert_rows \<lparr>written = [output_columns], rows_converted = 0, rows_skipped = 0\<rparr> rows"

section \<open>Notions of the specification\<close>

text \<open>Two strings are equal up to case when their lowercased forms are the same.\<close>

definition caseless_eq :: "string \<Rightarrow> string \<Rightarrow> bool" where
  "caseless_eq a b = (py_lower a = py_lower b)"

text \<open>An optional string is present and non-empty after trimming.\<close>

fun nonempty_trimmed :: "string option \<Rightarrow> bool" where
  "nonempty_trimmed None = False"
| "nonempty_trimmed (Some s) = (py_strip s \<noteq> [])"

text \<open>The name resolution as the specification words it (section 4.1): the given name
  and the surname when both are non-empty after trimming, else the tokens of the full
  name when it is non-empty after trimming, else the sentinel pair.\<close>

definition parse_name_spec :: "string option \<Rightarrow> string option \<Rightarrow> string option \<Rightarrow> string \<times> string" where
  "parse_name_spec full_name first_name last_name =
     (if nonempty_trimmed first_name \<and> nonempty_trimmed last_name
      then (py_strip (the first_name), py_strip (the last_name))
      else if nonempty_trimmed full_name then
        (case py_split (the full_name) of
           [] \<Rightarrow> (''Unknown'', ''Child'')
         | [p] \<Rightarrow> (p, p)
         | p # ps \<Rightarrow> (p, py_join ps))
      else (''Unknown'', ''Child''))"

text \<open>The levels that the specification classifies as inactive (section 4.4): absent,
  empty, or equal up to case to "inactive" or "none".\<close>

fun inactive_level :: "string option \<Rightarrow> bool" where
  "inactive_level None = True"
| "inactive_level (Some l) = (l = [] \<or> caseless_eq l ''inactive'' \<or> caseless_eq l ''none'')"

text \<open>A decimal digit.\<close>

definition is_digit :: "char \<Rightarrow> bool" where
  "is_digit c = (let n = (of_char c :: nat) in 48 \<le> n \<and> n \<le> 57)"

section \<open>Facts about the string operations\<close>

lemma is_space_lower_char: "is_space (lower_char c) = is_space c"
proof -
  have "(of_char c :: nat) < 256" by simp
  then show ?thesis
    unfolding lower_char_def is_space_def is_upper_def Let_def
    by (auto simp: mod_if)
qed

lemma py_strip_lower: "py_strip (py_lower s) = py_lower (py_strip s)"
proof -
  have c: "is_space \<circ> lower_char = is_space"
    by (rule ext) (simp add: is_space_lower_char)
  show ?thesis
    unfolding py_strip_def py_lower_def
    by (simp add: dropWhile_map rev_map c)
qed

lemma py_lower_Nil_iff: "py_lower s = [] \<longleftrightarrow> s = []"
  by (simp add: py_lower_def)

lemma py_strip_fixed:
  assumes "s = [] \<or> (\<not> is_space (hd s) \<and> \<not> is_space (last s))"
  shows "py_strip s = s"
proof (cases "s = []")
  case True
  then show ?thesis by (simp add: py_strip_def)
next
  case False
  with assms have h: "\<not> is_space (hd s)" and l: "\<not> is_space (last s)" by auto
  from h False have d: "dropWhile is_space s = s"
    by (simp add: dropWhile_eq_self_iff)
  from l False have "dropWhile is_space (rev s) = rev s"
    by (simp add: dropWhile_eq_self_iff hd_rev)
  with d show ?thesis by (simp add: py_strip_def)
qed

lemma py_strip_ends:
  "py_strip s = [] \<or> (\<not> is_space (hd (py_strip s)) \<and> \<not> is_space (last (py_strip s)))"
proof (cases "py_strip s = []")
  case True
  then show ?thesis by simp
next
  case False
  define t where "t = dropWhile is_space s"
  define u where "u = dropWhile is_space (rev t)"
  have su: "py_strip s = rev u" by (simp add: py_strip_def t_def u_def)
  with False have une: "u \<noteq> []" by simp
  then have "\<not> is_space (hd u)"
    unfolding u_def by (rule hd_dropWhile)
  then have l: "\<not> is_space (last (rev u))"
    using une by (simp add: last_rev)
  have tne: "t \<noteq> []" using une by (auto simp: u_def)
  then have ht: "\<not> is_space (hd t)"
    unfolding t_def by (rule hd_dropWhile)
  have "rev t = takeWhile is_space (rev t) @ u"
    by (simp add: u_def)
  then have "t = rev u @ rev (takeWhile is_space (rev t))"
    by (metis rev_append rev_rev_ident)
  then have "hd t = hd (rev u)"
    using une by (metis hd_append2 rev_is_Nil_conv)
  with ht l su show ?thesis by simp
qed

lemma py_strip_idem: "py_strip (py_strip s) = py_strip s"
  by (rule py_strip_fixed) (rule py_strip_ends)

lemma dropWhile_all_iff: "(\<forall>x \<in> set (dropWhile P xs). P x) \<longleftrightarrow> (\<forall>x \<in> set xs. P x)"
proof
  assume a: "\<forall>x \<in> set (dropWhile P xs). P x"
  have "dropWhile P xs = []"
  proof (rule ccontr)
    assume n: "dropWhile P xs \<noteq> []"
    then have "\<not> P (hd (dropWhile P xs))" by (rule hd_dropWhile)
    moreover have "hd (dropWhile P xs) \<in> set (dropWhile P xs)" using n by simp
    ultimately show False using a by blast
  qed
  then show "\<forall>x \<in> set xs. P x" by simp
next
  assume "\<forall>x \<in> set xs. P x"
  then show "\<forall>x \<in> set (dropWhile P xs). P x"
    by (meson set_dropWhileD)
qed

lemma py_strip_Nil_iff: "py_strip s = [] \<longleftrightarrow> (\<forall>c \<in> set s. is_space c)"
  by (simp add: py_strip_def dropWhile_all_iff)

lemma py_split_unfold:
  "py_split s =
     (if dropWhile is_space s = [] then []
      else takeWhile (\<lambda>x. \<not> is_space x) (dropWhile is_space s)
           # py_split (dropWhile (\<lambda>x. \<not> is_space x) (dropWhile is_space s)))"
proof (cases "dropWhile is_space s")
  case Nil
  show ?thesis by (subst py_split.simps) (simp add: Nil del: dropWhile_eq_Nil_conv)
next
  case (Cons c cs)
  show ?thesis by (subst py_split.simps) (simp add: Cons del: dropWhile_eq_Nil_conv)
qed

lemma py_split_Nil_iff: "py_split s = [] \<longleftrightarrow> (\<forall>c \<in> set s. is_space c)"
proof -
  have "py_split s = [] \<longleftrightarrow> dropWhile is_space s = []"
    by (subst py_split_unfold) (simp del: dropWhile_eq_Nil_conv)
  then show ?thesis by simp
qed

lemma py_split_spaces_append:
  assumes ws: "\<forall>c \<in> set ws. is_space c"
  shows "py_split (s @ ws) = py_split s"
proof (induction s rule: py_split.induct)
  case (1 s)
  let ?t = "dropWhile is_space s"
  let ?n = "\<lambda>x. \<not> is_space x"
  show ?case
  proof (cases "?t = []")
    case True
    then have "\<forall>c \<in> set (s @ ws). is_space c" using ws by auto
    then have "py_split (s @ ws) = []" by (simp only: py_split_Nil_iff)
    moreover have "py_split s = []" using True by (simp add: py_split_Nil_iff)
    ultimately show ?thesis by simp
  next
    case False
    then obtain c cs where t: "?t = c # cs" by (cases ?t) auto
    have d: "dropWhile is_space (s @ ws) = ?t @ ws"
      using False by (auto simp: dropWhile_append)
    have tw: "takeWhile ?n ws = []" using ws by (cases ws) auto
    have dw: "dropWhile ?n ws = ws" using ws by (cases ws) auto
    have "?t @ ws \<noteq> []" using False by simp
    then have l: "py_split (s @ ws) = takeWhile ?n (?t @ ws) # py_split (dropWhile ?n (?t @ ws))"
      by (subst py_split_unfold) (simp only: d if_False)
    have r: "py_split s = takeWhile ?n ?t # py_split (dropWhile ?n ?t)"
      using False by (subst py_split_unfold) (simp only: if_False)
    show ?thesis
    proof (cases "\<forall>x \<in> set ?t. ?n x")
      case True
      then have a: "takeWhile ?n ?t = ?t" and b: "dropWhile ?n ?t = []" by simp_all
      have "takeWhile ?n (?t @ ws) = ?t @ takeWhile ?n ws"
        using True by (simp add: takeWhile_append)
      then have a': "takeWhile ?n (?t @ ws) = ?t" by (simp only: tw append_Nil2)
      have "dropWhile ?n (?t @ ws) = dropWhile ?n ws"
        using True by (simp add: dropWhile_append)
      then have b': "dropWhile ?n (?t @ ws) = ws" by (simp only: dw)
      have "py_split ws = []" using ws by (simp only: py_split_Nil_iff)
      moreover have "py_split [] = []" by (simp only: py_split_Nil_iff) simp
      ultimately show ?thesis by (simp only: l r a b a' b')
    next
      case nall: False
      then have a: "takeWhile ?n (?t @ ws) = takeWhile ?n ?t"
        and b: "dropWhile ?n (?t @ ws) = dropWhile ?n ?t @ ws"
        by (auto simp: takeWhile_append dropWhile_append)
      have "py_split (dropWhile ?n (c # cs) @ ws) = py_split (dropWhile ?n (c # cs))"
        by (rule "1.IH" [OF t])
      then have "py_split (dropWhile ?n ?t @ ws) = py_split (dropWhile ?n ?t)"
        by (simp only: t)
      then show ?thesis by (simp only: l r a b)
    qed
  qed
qed

lemma py_split_dropWhile: "py_split (dropWhile is_space s) = py_split s"
  by (subst py_split_unfold, subst (2) py_split_unfold) (simp only: dropWhile_idem)

lemma py_split_strip: "py_split (py_strip s) = py_split s"
proof -
  let ?t = "dropWhile is_space s"
  have "rev ?t = takeWhile is_space (rev ?t) @ dropWhile is_space (rev ?t)"
    by (simp only: takeWhile_dropWhile_id)
  then have "rev (rev ?t) = rev (takeWhile is_space (rev ?t) @ dropWhile is_space (rev ?t))"
    by (rule arg_cong)
  then have e: "?t = rev (dropWhile is_space (rev ?t)) @ rev (takeWhile is_space (rev ?t))"
    by (simp only: rev_append rev_rev_ident)
  have "\<forall>c \<in> set (rev (takeWhile is_space (rev ?t))). is_space c"
    by (auto dest: set_takeWhileD)
  then have "py_split (rev (dropWhile is_space (rev ?t)) @ rev (takeWhile is_space (rev ?t)))
      = py_split (rev (dropWhile is_space (rev ?t)))"
    by (rule py_split_spaces_append)
  with e have "py_split ?t = py_split (rev (dropWhile is_space (rev ?t)))"
    by simp
  then show ?thesis by (simp add: py_strip_def py_split_dropWhile)
qed

section \<open>The level normalizer\<close>

lemma level_map_range:
  "map_of level_map k = Some v \<Longrightarrow>
     v \<in> set [''RR'', ''R'', ''Pre level 1'', ''Level 1'', ''Level 2'', ''Level 3'', ''Level 4'', ''Level 5'']"
  by (drule map_of_SomeD) (auto simp: level_map_def)

lemma level_map_keys:
  "map fst level_map = [''rr'', ''r'', ''pre level 1'', ''level 1'', ''level 2'', ''level 3'',
     ''level 4'', ''level 5'', ''1'', ''2'', ''3'', ''4'', ''5'']"
  by (simp add: level_map_def)

lemma LEVEL_FEES_keys:
  "map fst LEVEL_FEES = [''RR'', ''R'', ''Pre level 1'', ''Level 1'', ''Level 2'', ''Level 3'',
     ''Level 4'', ''Level 5'', ''1'', ''2'', ''3'', ''4'', ''5'']"
  by (simp add: LEVEL_FEES_def)

lemma py_lower_inactive: "py_lower ''inactive'' = ''inactive''" by code_simp
lemma py_lower_none: "py_lower ''none'' = ''none''" by code_simp
lemma py_strip_inactive: "py_strip ''inactive'' = ''inactive''" by code_simp
lemma py_strip_none: "py_strip ''none'' = ''none''" by code_simp

lemma caseless_inactive: "caseless_eq l ''inactive'' \<longleftrightarrow> py_lower l = ''inactive''"
  by (simp only: caseless_eq_def py_lower_inactive)

lemma caseless_none: "caseless_eq l ''none'' \<longleftrightarrow> py_lower l = ''none''"
  by (simp only: caseless_eq_def py_lower_none)

lemma normalize_level_canonical:
  assumes "v \<in> set [''RR'', ''R'', ''Pre level 1'', ''Level 1'', ''Level 2'', ''Level 3'', ''Level 4'', ''Level 5'']"
  shows "normalize_level (Some v) = Some v" and "\<not> inactive_level (Some v)"
proof -
  have a: "normalize_level (Some ''RR'') = Some ''RR''" by code_simp
  have b: "normalize_level (Some ''R'') = Some ''R''" by code_simp
  have c: "normalize_level (Some ''Pre level 1'') = Some ''Pre level 1''" by code_simp
  have d: "normalize_level (Some ''Level 1'') = Some ''Level 1''" by code_simp
  have e: "normalize_level (Some ''Level 2'') = Some ''Level 2''" by code_simp
  have f: "normalize_level (Some ''Level 3'') = Some ''Level 3''" by code_simp
  have g: "normalize_level (Some ''Level 4'') = Some ''Level 4''" by code_simp
  have h: "normalize_level (Some ''Level 5'') = Some ''Level 5''" by code_simp
  from assms a b c d e f g h show "normalize_level (Some v) = Some v" by auto
  have a: "\<not> inactive_level (Some ''RR'')" by code_simp
  have b: "\<not> inactive_level (Some ''R'')" by code_simp
  have c: "\<not> inactive_level (Some ''Pre level 1'')" by code_simp
  have d: "\<not> inactive_level (Some ''Level 1'')" by code_simp
  have e: "\<not> inactive_level (Some ''Level 2'')" by code_simp
  have f: "\<not> inactive_level (Some ''Level 3'')" by code_simp
  have g: "\<not> inactive_level (Some ''Level 4'')" by code_simp
  have h: "\<not> inactive_level (Some ''Level 5'')" by code_simp
  from assms a b c d e f g h show "\<not> inactive_level (Some v)" by auto
qed

lemma lower_strip_inactive: "py_lower l = ''inactive'' \<Longrightarrow> py_lower (py_strip l) = ''inactive''"
  using py_strip_lower [of l] py_strip_inactive by simp

lemma lower_strip_none: "py_lower l = ''none'' \<Longrightarrow> py_lower (py_strip l) = ''none''"
  using py_strip_lower [of l] py_strip_none by simp

lemma normalize_level_Some:
  "normalize_level (Some l) =
     (if l = [] \<or> py_lower l = ''inactive'' \<or> py_lower l = ''none'' then None
      else Some (dict_get level_map (py_lower (py_strip l)) (py_strip l)))"
  by (auto simp: normalize_level_def Let_def py_lower_Nil_iff)

subsection \<open>Absent levels\<close>

text \<open>The test of line 30 on its own: a raw level that is empty or that, taken as it
  is, equals "inactive" or "none" up to case has no level.\<close>

lemma normalize_level_absent:
  "l = [] \<or> caseless_eq l ''inactive'' \<or> caseless_eq l ''none'' \<Longrightarrow> normalize_level (Some l) = None"
  by (simp add: normalize_level_Some caseless_inactive caseless_none)

text \<open>The word "none" without padding, and a padded alias: the row of an inactive member
  has the level "R" and the fee "R0", and the alias " rr " is matched after the strip of
  line 33.\<close>

lemma plain_none_row:
  "map_option (\<lambda>d. (map_of d ''level'', map_of d ''monthlyFee'', map_of d ''status''))
      (output_row [''Name'' \<mapsto> Some ''Jane'', ''Surname'' \<mapsto> Some ''Doe'', ''Level'' \<mapsto> Some ''none''])
     = Some (Some ''R'', Some ''R0'', Some ''INACTIVE'')
   \<and> normalize_level (Some '' rr '') = Some ''RR''"
  by code_simp

text \<open>
  Claim C3 at the raw level " none". The claim says that a raw level whose trimmed form
  equals "inactive" or "none" up to case has no level. The trimmed, lowercased form of
  " none" is "none", yet \<^const>\<open>normalize_level\<close> returns the string "none": line 30
  tests the level before line 33 strips it. The row is then written with the level
  "none", the default fee "R350" and the status "INACTIVE".
\<close>

theorem normalize_level_padded_none:
  "py_lower (py_strip '' none'') = ''none''
   \<and> normalize_level (Some '' none'') = Some ''none''
   \<and> map_option (\<lambda>d. (map_of d ''level'', map_of d ''monthlyFee'', map_of d ''status''))
        (output_row [''Name'' \<mapsto> Some ''Jane'', ''Surname'' \<mapsto> Some ''Doe'', ''Level'' \<mapsto> Some '' none''])
       = Some (Some ''none'', Some ''R350'', Some ''INACTIVE'')"
  by code_simp

subsection \<open>Normalizing twice\<close>

text \<open>What a second normalization does on the code as it is: it returns the level of
  the first one, except for a level that the test of line 30 takes for no level.\<close>

lemma normalize_level_twice:
  assumes "normalize_level s = Some t"
  shows "normalize_level (Some t) = (if inactive_level (Some t) then None else Some t)"
proof -
  from assms obtain l where s: "s = Some l" by (cases s) (auto simp: normalize_level_def)
  from assms s have l: "\<not> (l = [] \<or> py_lower l = ''inactive'' \<or> py_lower l = ''none'')"
    and t: "t = dict_get level_map (py_lower (py_strip l)) (py_strip l)"
    by (auto simp: normalize_level_Some split: if_splits)
  show ?thesis
  proof (cases "map_of level_map (py_lower (py_strip l))")
    case (Some v)
    then have "t = v" using t by (simp add: dict_get_def)
    with normalize_level_canonical [OF level_map_range [OF Some]] show ?thesis by simp
  next
    case None
    then have ts: "t = py_strip l" using t by (simp add: dict_get_def)
    then have fx: "py_strip t = t" by (simp add: py_strip_idem)
    show ?thesis
    proof (cases "inactive_level (Some t)")
      case True
      then show ?thesis
        by (simp add: normalize_level_Some caseless_inactive caseless_none)
    next
      case False
      then have "\<not> (t = [] \<or> py_lower t = ''inactive'' \<or> py_lower t = ''none'')"
        by (simp add: caseless_inactive caseless_none)
      then have "normalize_level (Some t) = Some (dict_get level_map (py_lower t) t)"
        by (simp add: normalize_level_Some fx)
      also have "dict_get level_map (py_lower t) t = t"
        using None ts by (simp add: dict_get_def)
      finally show ?thesis using False by simp
    qed
  qed
qed

text \<open>
  Claim C4 at the raw level " none". The claim says that normalizing a level that
  \<^const>\<open>normalize_level\<close> has returned gives that level again. The level returned for
  " none" is "none", and normalizing "none" gives no level: the first call strips the
  padding after the test of line 30, and the second call meets the test with the bare
  word.
\<close>

theorem normalize_level_not_idempotent:
  "normalize_level (Some '' none'') = Some ''none'' \<and> normalize_level (Some ''none'') = None"
  by code_simp

subsection \<open>Levels outside the alias table\<close>

text \<open>
  Claim C7. A non-empty raw level whose trimmed, lowercased form is no key of the alias
  table and is none of "inactive", "none" and the empty string is returned trimmed, in
  its own case.
\<close>

theorem normalize_level_unmatched:
  assumes "l \<noteq> []"
    and "py_lower (py_strip l) \<notin> set [''rr'', ''r'', ''pre level 1'', ''level 1'', ''level 2'',
           ''level 3'', ''level 4'', ''level 5'', ''1'', ''2'', ''3'', ''4'', ''5'']"
    and "py_lower (py_strip l) \<notin> set [''inactive'', ''none'', '''']"
  shows "normalize_level (Some l) = Some (py_strip l)"
proof -
  have "py_lower l \<noteq> ''inactive''" using assms(3) lower_strip_inactive [of l] by auto
  moreover have "py_lower l \<noteq> ''none''" using assms(3) lower_strip_none [of l] by auto
  moreover have "map_of level_map (py_lower (py_strip l)) = None"
    using assms(2) by (simp only: map_of_eq_None_iff set_map [symmetric] level_map_keys) simp
  ultimately show ?thesis using assms(1)
    by (simp add: normalize_level_Some dict_get_def)
qed

theorem normalize_level_unmatched_witness:
  "normalize_level (Some '' Squad A '') = Some ''Squad A''"
proof -
  have h1: "'' Squad A '' \<noteq> []" by simp
  have h2: "py_lower (py_strip '' Squad A '') \<notin> set [''rr'', ''r'', ''pre level 1'', ''level 1'', ''level 2'',
           ''level 3'', ''level 4'', ''level 5'', ''1'', ''2'', ''3'', ''4'', ''5'']" by code_simp
  have h3: "py_lower (py_strip '' Squad A '') \<notin> set [''inactive'', ''none'', '''']" by code_simp
  have e: "py_strip '' Squad A '' = ''Squad A''" by code_simp
  from normalize_level_unmatched [OF h1 h2 h3] e show ?thesis by simp
qed

section \<open>The fee table\<close>

text \<open>
  The empty string is no key of the fee table, and its fee is 0, not the default 350:
  line 56 returns 0 for every level that is false, the empty string as well as
  \<^verbatim>\<open>None\<close>.
\<close>

theorem get_monthly_fee_empty_string:
  "[] \<notin> set [''RR'', ''R'', ''Pre level 1'', ''Level 1'', ''Level 2'', ''Level 3'',
       ''Level 4'', ''Level 5'', ''1'', ''2'', ''3'', ''4'', ''5'']
   \<and> get_monthly_fee (Some []) = 0"
  by (simp add: get_monthly_fee_def)

lemma get_monthly_fee_table:
  "get_monthly_fee (Some ''RR'') = 250" "get_monthly_fee (Some ''R'') = 250"
  "get_monthly_fee (Some ''Pre level 1'') = 300"
  "get_monthly_fee (Some ''Level 1'') = 350" "get_monthly_fee (Some ''Level 2'') = 400"
  "get_monthly_fee (Some ''Level 3'') = 450" "get_monthly_fee (Some ''Level 4'') = 500"
  "get_monthly_fee (Some ''Level 5'') = 550"
  "get_monthly_fee (Some ''1'') = 350" "get_monthly_fee (Some ''2'') = 400"
  "get_monthly_fee (Some ''3'') = 450" "get_monthly_fee (Some ''4'') = 500"
  "get_monthly_fee (Some ''5'') = 550"
  by (simp_all add: get_monthly_fee_def dict_get_def LEVEL_FEES_def)

lemma get_monthly_fee_default:
  assumes "l \<noteq> []"
    and "l \<notin> set [''RR'', ''R'', ''Pre level 1'', ''Level 1'', ''Level 2'', ''Level 3'',
       ''Level 4'', ''Level 5'', ''1'', ''2'', ''3'', ''4'', ''5'']"
  shows "get_monthly_fee (Some l) = 350"
proof -
  have "map_of LEVEL_FEES l = None"
    using assms(2) by (simp only: map_of_eq_None_iff set_map [symmetric] LEVEL_FEES_keys) simp
  then show ?thesis using assms(1) by (simp add: get_monthly_fee_def dict_get_def)
qed

text \<open>
  Claim C5, as the code has it. \<^const>\<open>get_monthly_fee\<close> maps the absent level to 0,
  the thirteen keys of the table to their fees, the empty string to 0, and every
  non-empty string that is no key of the table to the default 350.
\<close>

theorem get_monthly_fee_values:
  "get_monthly_fee None = 0
   \<and> get_monthly_fee (Some ''RR'') = 250 \<and> get_monthly_fee (Some ''R'') = 250
   \<and> get_monthly_fee (Some ''Pre level 1'') = 300
   \<and> get_monthly_fee (Some ''Level 1'') = 350 \<and> get_monthly_fee (Some ''Level 2'') = 400
   \<and> get_monthly_fee (Some ''Level 3'') = 450 \<and> get_monthly_fee (Some ''Level 4'') = 500
   \<and> get_monthly_fee (Some ''Level 5'') = 550
   \<and> get_monthly_fee (Some ''1'') = 350 \<and> get_monthly_fee (Some ''2'') = 400
   \<and> get_monthly_fee (Some ''3'') = 450 \<and> get_monthly_fee (Some ''4'') = 500
   \<and> get_monthly_fee (Some ''5'') = 550
   \<and> get_monthly_fee (Some []) = 0
   \<and> (l \<noteq> [] \<and> l \<notin> set [''RR'', ''R'', ''Pre level 1'', ''Level 1'', ''Level 2'', ''Level 3'',
          ''Level 4'', ''Level 5'', ''1'', ''2'', ''3'', ''4'', ''5'']
        \<longrightarrow> get_monthly_fee (Some l) = 350)"
proof -
  have "get_monthly_fee None = 0" "get_monthly_fee (Some []) = 0"
    by (simp_all add: get_monthly_fee_def)
  then show ?thesis
    using get_monthly_fee_default [of l] by (simp only: get_monthly_fee_table) simp
qed

theorem get_monthly_fee_values_witness:
  "''Squad A'' \<noteq> [] \<and> get_monthly_fee (Some ''Squad A'') = 350 \<and> get_monthly_fee (Some ''Level 4'') = 500"
proof -
  have h: "''Squad A'' \<noteq> [] \<and> ''Squad A'' \<notin> set [''RR'', ''R'', ''Pre level 1'', ''Level 1'', ''Level 2'', ''Level 3'',
          ''Level 4'', ''Level 5'', ''1'', ''2'', ''3'', ''4'', ''5'']" by simp
  from get_monthly_fee_values [of "''Squad A''"] h show ?thesis by blast
qed

lemma get_monthly_fee_nonneg: "0 \<le> get_monthly_fee lv"
proof (cases lv)
  case None
  then show ?thesis by (simp add: get_monthly_fee_def)
next
  case (Some l)
  show ?thesis
  proof (cases "map_of LEVEL_FEES l")
    case None
    with Some show ?thesis by (simp add: get_monthly_fee_def dict_get_def)
  next
    case (Some v)
    then have "(l, v) \<in> set LEVEL_FEES" by (rule map_of_SomeD)
    then have "0 \<le> v" by (auto simp: LEVEL_FEES_def)
    with Some \<open>lv = Some l\<close> show ?thesis by (simp add: get_monthly_fee_def dict_get_def)
  qed
qed

lemma fee_of_level: "(if truthy lv then get_monthly_fee lv else 0) = get_monthly_fee lv"
  by (cases lv) (auto simp: get_monthly_fee_def)

section \<open>The output record\<close>

lemma output_row_SomeD:
  assumes "output_row r = Some d"
  shows "d =
    (let child_first = fst (parse_name (row_get r ''Full Name'') (row_get r ''Name'') (row_get r ''Surname''));
         child_last = snd (parse_name (row_get r ''Full Name'') (row_get r ''Name'') (row_get r ''Surname''));
         level = normalize_level (row_get r ''Level'')
     in [(''firstName'', child_first),
         (''lastName'', child_last),
         (''parentFirstName'', ''Parent''),
         (''parentLastName'', child_last),
         (''parentEmail'', generate_parent_email child_first child_last),
         (''parentPhone'', []),
         (''level'', if truthy level then the level else ''R''),
         (''monthlyFee'', ''R'' @ str_int (if truthy level then get_monthly_fee level else 0)),
         (''status'', level_status level),
         (''dateOfBirth'', []),
         (''gender'', []),
         (''notes'', ''Imported from CSV - verify parent contact details''),
         (''currentBalance'', ''R0''),
         (''sagfFee'', []),
         (''equipmentFee'', []),
         (''competitionFee'', []),
         (''lastPaymentDate'', []),
         (''lastPaymentAmount'', [])])"
    and "fst (parse_name (row_get r ''Full Name'') (row_get r ''Name'') (row_get r ''Surname'')) \<noteq> ''Unknown''"
    and "snd (parse_name (row_get r ''Full Name'') (row_get r ''Name'') (row_get r ''Surname'')) \<noteq> []"
  using assms
  by (auto simp add: output_row_def Let_def split_beta split: if_splits simp del: One_nat_def)

lemma level_or_R:
  "(if truthy lv then the lv else ''R'') = (case lv of None \<Rightarrow> ''R'' | Some l \<Rightarrow> if l = [] then ''R'' else l)"
  by (cases lv) auto

lemma digit_char_is_digit: "d < 10 \<Longrightarrow> is_digit (digit_char d)"
  by (simp add: is_digit_def digit_char_def)

lemma str_nat_digits: "str_nat n \<noteq> [] \<and> list_all is_digit (str_nat n)"
proof (induction n rule: str_nat.induct)
  case (1 n)
  show ?case
  proof (cases "n < 10")
    case True
    then show ?thesis by (subst str_nat.simps, subst (2) str_nat.simps) (simp add: digit_char_is_digit)
  next
    case False
    with 1 show ?thesis by (subst str_nat.simps, subst (2) str_nat.simps) (simp add: digit_char_is_digit)
  qed
qed

lemma str_int_digits: "0 \<le> i \<Longrightarrow> str_int i \<noteq> [] \<and> list_all is_digit (str_int i)"
  by (simp add: str_int_def str_nat_digits)

subsection \<open>Status\<close>

lemma level_status_inactive: "level_status lv = ''INACTIVE'' \<longleftrightarrow> inactive_level lv"
  by (cases lv) (auto simp: level_status_def caseless_inactive caseless_none)

lemma level_status_active: "level_status lv = ''ACTIVE'' \<longleftrightarrow> \<not> inactive_level lv"
  by (cases lv) (auto simp: level_status_def caseless_inactive caseless_none)

lemma output_row_status:
  "output_row r = Some d \<Longrightarrow> map_of d ''status'' = Some (level_status (normalize_level (row_get r ''Level'')))"
  by (drule output_row_SomeD(1)) (simp add: Let_def)

text \<open>
  Claim C6. The status derived from a level is "INACTIVE" exactly when the level is
  absent, empty, or equal up to case to "inactive" or "none", and "ACTIVE" exactly in
  every other case, so it is never a third string; the status field of an emitted
  record is the status derived from the normalized level of the row.
\<close>

theorem status_of_level:
  "(level_status lv = ''INACTIVE'' \<longleftrightarrow> inactive_level lv)
   \<and> (level_status lv = ''ACTIVE'' \<longleftrightarrow> \<not> inactive_level lv)
   \<and> (output_row r = Some d \<longrightarrow>
        map_of d ''status'' = Some (level_status (normalize_level (row_get r ''Level''))))"
  using level_status_inactive level_status_active output_row_status by blast

theorem status_of_level_witness:
  "output_row [''Name'' \<mapsto> Some ''Jane'', ''Surname'' \<mapsto> Some ''Doe'', ''Level'' \<mapsto> Some ''Level 2''] \<noteq> None
   \<and> map_of (the (output_row [''Name'' \<mapsto> Some ''Jane'', ''Surname'' \<mapsto> Some ''Doe'', ''Level'' \<mapsto> Some ''Level 2'']))
        ''status'' = Some ''ACTIVE''"
proof -
  let ?r = "[''Name'' \<mapsto> Some ''Jane'', ''Surname'' \<mapsto> Some ''Doe'', ''Level'' \<mapsto> Some ''Level 2'']"
  have n: "output_row ?r \<noteq> None" by code_simp
  then have h: "output_row ?r = Some (the (output_row ?r))" by simp
  have e: "level_status (normalize_level (row_get ?r ''Level'')) = ''ACTIVE''" by code_simp
  from status_of_level [of _ ?r "the (output_row ?r)"] h
  have "map_of (the (output_row ?r)) ''status'' = Some (level_status (normalize_level (row_get ?r ''Level'')))"
    by blast
  with e n show ?thesis by simp
qed

subsection \<open>Fields\<close>

text \<open>
  A row whose level is a single space: the normalized level is the empty string, which
  is a level and not the absent one, and the level written is "R".
\<close>

theorem blank_level_written_as_R:
  "normalize_level (row_get [''Name'' \<mapsto> Some ''Jane'', ''Surname'' \<mapsto> Some ''Doe'', ''Level'' \<mapsto> Some '' ''] ''Level'')
     = Some []
   \<and> map_option (\<lambda>d. map_of d ''level'')
       (output_row [''Name'' \<mapsto> Some ''Jane'', ''Surname'' \<mapsto> Some ''Doe'', ''Level'' \<mapsto> Some '' ''])
     = Some (Some ''R'')"
  by code_simp

text \<open>
  Claim C8, as the code has it. The record of an accepted row has the 18 keys of
  \<^const>\<open>output_columns\<close> in that order, and \<^const>\<open>writerow\<close> writes its values in
  that order; parentFirstName is "Parent", parentLastName is the last name of the child,
  parentPhone is empty, level is the normalized level, or "R" when the normalized level
  is absent or the empty string; notes and currentBalance are the fixed texts;
  monthlyFee is the letter R followed by the decimal digits of the fee of the normalized
  level, which is not negative; the seven remaining fields are empty.
\<close>

theorem output_row_fields:
  assumes "output_row r = Some d"
  shows "map fst d = output_columns \<and> length d = 18 \<and> distinct (map fst d)
    \<and> writerow output_columns d = map snd d
    \<and> map_of d ''parentFirstName'' = Some ''Parent''
    \<and> map_of d ''parentLastName'' = map_of d ''lastName''
    \<and> map_of d ''parentPhone'' = Some []
    \<and> map_of d ''level'' =
        Some (case normalize_level (row_get r ''Level'') of
                None \<Rightarrow> ''R'' | Some l \<Rightarrow> if l = [] then ''R'' else l)
    \<and> map_of d ''notes'' = Some ''Imported from CSV - verify parent contact details''
    \<and> map_of d ''currentBalance'' = Some ''R0''
    \<and> map_of d ''monthlyFee'' =
        Some (CHR ''R'' # str_int (get_monthly_fee (normalize_level (row_get r ''Level''))))
    \<and> 0 \<le> get_monthly_fee (normalize_level (row_get r ''Level''))
    \<and> str_int (get_monthly_fee (normalize_level (row_get r ''Level''))) \<noteq> []
    \<and> list_all is_digit (str_int (get_monthly_fee (normalize_level (row_get r ''Level''))))
    \<and> map_of d ''dateOfBirth'' = Some [] \<and> map_of d ''gender'' = Some []
    \<and> map_of d ''sagfFee'' = Some [] \<and> map_of d ''equipmentFee'' = Some []
    \<and> map_of d ''competitionFee'' = Some [] \<and> map_of d ''lastPaymentDate'' = Some []
    \<and> map_of d ''lastPaymentAmount'' = Some []"
proof -
  note d = output_row_SomeD(1) [OF assms, unfolded Let_def fee_of_level level_or_R]
  have keys: "map fst d = output_columns" by (subst d) (simp add: output_columns_def)
  have len: "length d = 18" by (subst d) simp
  have dist: "distinct (map fst d)" by (simp only: keys) (simp add: output_columns_def)
  have wr: "writerow output_columns d = map snd d"
    by (subst (1 2) d) (simp add: writerow_def output_columns_def dict_get_def)
  have f1: "map_of d ''parentFirstName'' = Some ''Parent''" by (subst d) simp
  have f2: "map_of d ''parentLastName'' = map_of d ''lastName''" by (subst (1 2) d) simp
  have f3: "map_of d ''parentPhone'' = Some []" by (subst d) simp
  have f4: "map_of d ''level'' =
        Some (case normalize_level (row_get r ''Level'') of
                None \<Rightarrow> ''R'' | Some l \<Rightarrow> if l = [] then ''R'' else l)" by (subst d) simp
  have f5: "map_of d ''notes'' = Some ''Imported from CSV - verify parent contact details''"
    by (subst d) simp
  have f6: "map_of d ''currentBalance'' = Some ''R0''" by (subst d) simp
  have f7: "map_of d ''monthlyFee'' =
        Some (CHR ''R'' # str_int (get_monthly_fee (normalize_level (row_get r ''Level''))))"
    by (subst d) simp
  have f8: "map_of d ''dateOfBirth'' = Some []" "map_of d ''gender'' = Some []"
    "map_of d ''sagfFee'' = Some []" "map_of d ''equipmentFee'' = Some []"
    "map_of d ''competitionFee'' = Some []" "map_of d ''lastPaymentDate'' = Some []"
    "map_of d ''lastPaymentAmount'' = Some []"
    by (subst d, simp)+
  note g = get_monthly_fee_nonneg [of "normalize_level (row_get r ''Level'')"]
  from keys len dist wr f1 f2 f3 f4 f5 f6 f7 f8 g str_int_digits [OF g]
  show ?thesis by blast
qed

theorem output_row_fields_witness:
  "output_row [''Name'' \<mapsto> Some ''Jane'', ''Surname'' \<mapsto> Some ''Doe'', ''Level'' \<mapsto> Some ''Level 2''] \<noteq> None
   \<and> map fst (the (output_row [''Name'' \<mapsto> Some ''Jane'', ''Surname'' \<mapsto> Some ''Doe'', ''Level'' \<mapsto> Some ''Level 2'']))
       = output_columns
   \<and> map_of (the (output_row [''Name'' \<mapsto> Some ''Jane'', ''Surname'' \<mapsto> Some ''Doe'', ''Level'' \<mapsto> Some ''Level 2'']))
        ''monthlyFee'' = Some ''R400''"
proof -
  let ?r = "[''Name'' \<mapsto> Some ''Jane'', ''Surname'' \<mapsto> Some ''Doe'', ''Level'' \<mapsto> Some ''Level 2'']"
  have n: "output_row ?r \<noteq> None" by code_simp
  then have h: "output_row ?r = Some (the (output_row ?r))" by simp
  have e: "str_int (get_monthly_fee (normalize_level (row_get ?r ''Level''))) = ''400''" by code_simp
  from output_row_fields [OF h] e n show ?thesis by simp
qed

section \<open>Name resolution and admission\<close>

lemma py_strip_Unknown: "py_strip ''Unknown'' = ''Unknown''" by code_simp

lemma nonempty_trimmed_split: "nonempty_trimmed (Some l) \<longleftrightarrow> py_split l \<noteq> []"
  by (simp add: py_strip_Nil_iff py_split_Nil_iff)

lemma parts_cases:
  "(let parts = ps in
      if length parts \<ge> 2 then (hd parts, py_join (tl parts))
      else if length parts = 1 then (hd parts, hd parts)
      else (''Unknown'', ''Child''))
   = (case ps of [] \<Rightarrow> (''Unknown'', ''Child'') | [p] \<Rightarrow> (p, p) | p # qs \<Rightarrow> (p, py_join qs))"
  by (cases ps) (auto split: list.splits)

text \<open>The name resolution of the code as it is, by cases: it differs from
  \<^const>\<open>parse_name_spec\<close> in the first test only, which line 63 makes before the
  names are stripped.\<close>

lemma parse_name_cases:
  "parse_name full_name first_name last_name =
     (if truthy first_name \<and> truthy last_name
      then (py_strip (the first_name), py_strip (the last_name))
      else if nonempty_trimmed full_name then
        (case py_split (the full_name) of
           [] \<Rightarrow> (''Unknown'', ''Child'')
         | [p] \<Rightarrow> (p, p)
         | p # ps \<Rightarrow> (p, py_join ps))
      else (''Unknown'', ''Child''))"
proof (cases full_name)
  case None
  then show ?thesis by (simp add: parse_name_def)
next
  case (Some l)
  show ?thesis
  proof (cases "py_split l = []")
    case True
    then have "\<not> nonempty_trimmed (Some l)" by (simp add: py_strip_Nil_iff py_split_Nil_iff)
    with True Some show ?thesis
      unfolding parse_name_def parts_cases py_split_strip by simp
  next
    case False
    then have n: "nonempty_trimmed (Some l)" by (simp add: py_strip_Nil_iff py_split_Nil_iff)
    then have "l \<noteq> []" by (auto simp: py_strip_def)
    with n Some show ?thesis
      unfolding parse_name_def parts_cases py_split_strip by simp
  qed
qed

text \<open>An empty given name falls back to the full name.\<close>

lemma parse_name_empty_given_name:
  "parse_name (Some ''Jane Doe'') (Some []) (Some ''Doe'') = (''Jane'', ''Doe'')"
  by code_simp

text \<open>
  Claim C2 at the given name of one space, with the surname "Doe" and the full name
  "Jane Doe". The claim says that the given name and the surname are used exactly when
  both are non-empty after trimming, and that otherwise a usable full name is split.
  The given name is empty after trimming, yet \<^const>\<open>parse_name\<close> returns the empty
  first name with the surname "Doe", where the rule of the claim,
  \<^const>\<open>parse_name_spec\<close>, resolves the full name to "Jane" and "Doe".
\<close>

theorem parse_name_blank_given_name:
  "parse_name (Some ''Jane Doe'') (Some '' '') (Some ''Doe'') = ([], ''Doe'')
   \<and> parse_name_spec (Some ''Jane Doe'') (Some '' '') (Some ''Doe'') = (''Jane'', ''Doe'')"
  by code_simp

lemma output_row_names:
  assumes "output_row r = Some d"
  shows "map_of d ''firstName'' \<noteq> Some ''Unknown'' \<and> map_of d ''lastName'' \<noteq> Some []
    \<and> map_of d ''firstName'' \<noteq> None \<and> map_of d ''lastName'' \<noteq> None"
proof -
  note d = output_row_SomeD(1) [OF assms, unfolded Let_def]
  have "map_of d ''firstName'' =
      Some (fst (parse_name (row_get r ''Full Name'') (row_get r ''Name'') (row_get r ''Surname'')))"
    by (subst d) simp
  moreover have "map_of d ''lastName'' =
      Some (snd (parse_name (row_get r ''Full Name'') (row_get r ''Name'') (row_get r ''Surname'')))"
    by (subst d) simp
  ultimately show ?thesis
    using output_row_SomeD(2,3) [OF assms] by simp
qed

text \<open>
  Claim C1 at the row with the given name of one space and the surname "Doe": the row
  is accepted and the first name of the emitted record is empty. The test of line 127
  rejects an empty last name and the first name "Unknown" (lemma
  \<open>output_row_names\<close>), and has no test for an empty first name.
\<close>

theorem blank_given_name_emitted:
  "map_option (\<lambda>d. (map_of d ''firstName'', map_of d ''lastName''))
      (output_row [''Name'' \<mapsto> Some '' '', ''Surname'' \<mapsto> Some ''Doe''])
     = Some (Some [], Some ''Doe'')"
  by code_simp

text \<open>
  A row with the given name "Unknown", an empty surname and the full name "Jane Doe":
  the name is resolved from the full name and the row is accepted.
\<close>

theorem unknown_given_name_accepted:
  "row_get [''Name'' \<mapsto> Some ''Unknown'', ''Surname'' \<mapsto> Some [], ''Full Name'' \<mapsto> Some ''Jane Doe''] ''Name''
     = Some ''Unknown''
   \<and> map_option (\<lambda>d. map_of d ''firstName'')
       (output_row [''Name'' \<mapsto> Some ''Unknown'', ''Surname'' \<mapsto> Some [], ''Full Name'' \<mapsto> Some ''Jane Doe''])
     = Some (Some ''Jane'')"
  by code_simp

text \<open>
  Claim C9, as the code has it. A row whose given name is exactly "Unknown" and whose
  surname is present and non-empty is rejected: the first name resolved is the given
  name itself, and line 127 compares it with the literal "Unknown".
\<close>

theorem unknown_given_name_rejected:
  assumes "row_get r ''Name'' = Some ''Unknown''" and "truthy (row_get r ''Surname'')"
  shows "output_row r = None"
proof -
  have "parse_name (row_get r ''Full Name'') (row_get r ''Name'') (row_get r ''Surname'')
      = (''Unknown'', py_strip (the (row_get r ''Surname'')))"
    using assms by (simp add: parse_name_def py_strip_Unknown)
  then show ?thesis by (simp add: output_row_def)
qed

theorem unknown_given_name_rejected_witness:
  "output_row [''Name'' \<mapsto> Some ''Unknown'', ''Surname'' \<mapsto> Some ''Doe'', ''Full Name'' \<mapsto> Some ''Jane Doe''] = None"
proof -
  let ?r = "[''Name'' \<mapsto> Some ''Unknown'', ''Surname'' \<mapsto> Some ''Doe'', ''Full Name'' \<mapsto> Some ''Jane Doe'']"
  have h1: "row_get ?r ''Name'' = Some ''Unknown''" by code_simp
  have h2: "truthy (row_get ?r ''Surname'')" by code_simp
  from unknown_given_name_rejected [OF h1 h2] show ?thesis .
qed

section \<open>The counters\<close>

lemma convert_step_cases:
  "(output_row r \<noteq> None \<and> rows_converted (convert_step st r) = rows_converted st + 1
      \<and> rows_skipped (convert_step st r) = rows_skipped st
      \<and> length (written (convert_step st r)) = length (written st) + 1)
   \<or> (output_row r = None \<and> rows_converted (convert_step st r) = rows_converted st
      \<and> rows_skipped (convert_step st r) = rows_skipped st + 1
      \<and> written (convert_step st r) = written st)"
  by (cases "output_row r") (simp_all add: convert_step_def)

lemma convert_rows_counters:
  "rows_converted (convert_rows st rs) =
     rows_converted st + int (length (filter (\<lambda>r. output_row r \<noteq> None) rs))
   \<and> rows_skipped (convert_rows st rs) =
     rows_skipped st + int (length (filter (\<lambda>r. output_row r = None) rs))
   \<and> length (written (convert_rows st rs)) =
     length (written st) + length (filter (\<lambda>r. output_row r \<noteq> None) rs)"
proof (induction rs arbitrary: st)
  case Nil
  show ?case by simp
next
  case (Cons r rs)
  from convert_step_cases [of r st] Cons [of "convert_step st r"]
  show ?case by auto
qed

text \<open>
  Claim C10. Each pass of the loop adds 1 to exactly one of the two counters and leaves
  the other as it is; at the end of a run the two counters add up to the number of
  input rows, the lines written are the header and one line for each converted row, and
  the count of skipped rows is the number of rows that were not written.
\<close>

theorem counters_account_for_every_row:
  "((rows_converted (convert_step st r) = rows_converted st + 1
       \<and> rows_skipped (convert_step st r) = rows_skipped st)
     \<or> (rows_converted (convert_step st r) = rows_converted st
       \<and> rows_skipped (convert_step st r) = rows_skipped st + 1))
   \<and> rows_converted (convert_csv rows) + rows_skipped (convert_csv rows) = int (length rows)
   \<and> int (length (written (convert_csv rows))) = 1 + rows_converted (convert_csv rows)
   \<and> rows_skipped (convert_csv rows) = int (length rows) - (int (length (written (convert_csv rows))) - 1)
   \<and> rows_skipped (convert_csv rows) = int (length (filter (\<lambda>r. output_row r = None) rows))"
proof -
  let ?st = "\<lparr>written = [output_columns], rows_converted = 0, rows_skipped = 0\<rparr>"
  have "length (filter (\<lambda>r. output_row r \<noteq> None) rows) + length (filter (\<lambda>r. output_row r = None) rows)
      = length rows"
    using sum_length_filter_compl [of "\<lambda>r. output_row r \<noteq> None" rows] by simp
  with convert_rows_counters [of ?st rows] convert_step_cases [of r st]
  show ?thesis unfolding convert_csv_def by auto
qed

end
